theory Spec2Isabelle
  imports Main
begin

section \<open>JavaScript strings\<close>

text \<open>
  A JavaScript string is a sequence of UTF-16 code units and \<open>s.length\<close> is the number
  of code units. A code unit is modelled by its number; the list functions below never
  do arithmetic on it. The payload of a \<open>data\<close> event is the string that
  \<open>data.toString()\<close> yields.
\<close>

type_synonym cu = nat
type_synonym jsstring = "cu list"

definition js :: "string \<Rightarrow> jsstring" where
  "js s = map of_char s"

text \<open>
  \<open>String.prototype.trim\<close> removes the code units of WhiteSpace and LineTerminator
  from both ends: TAB, LF, VT, FF, CR, SP, NBSP, U+1680, U+2000 to U+200A, U+2028, U+2029,
  U+202F, U+205F, U+3000 and U+FEFF.
\<close>

definition is_space :: "cu \<Rightarrow> bool" where
  "is_space c \<longleftrightarrow>
     (9 \<le> c \<and> c \<le> 13) \<or> c = 32 \<or> c = 160 \<or> c = 5760 \<or> (8192 \<le> c \<and> c \<le> 8202)
     \<or> c = 8232 \<or> c = 8233 \<or> c = 8239 \<or> c = 8287 \<or> c = 12288 \<or> c = 65279"

definition trim :: "jsstring \<Rightarrow> jsstring" where
  "trim s = rev (dropWhile is_space (rev (dropWhile is_space s)))"

text \<open>Template literal \<open>`${n}`\<close> for an integer \<open>n\<close>: its decimal numeral.\<close>

function digits :: "nat \<Rightarrow> jsstring" where
  "digits n = (if n < 10 then [48 + n] else digits (n div 10) @ [48 + n mod 10])"
  by pat_completeness auto
termination
  by (relation "measure id") auto

definition show_int :: "int \<Rightarrow> jsstring" where
  "show_int i = (if i < 0 then 45 # digits (nat (- i)) else digits (nat i))"

subsection \<open>The pattern \<open>/\<bslash>bsudo\<bslash>b/i\<close>\<close>

text \<open>
  \<open>\<bslash>b\<close> holds at a position where exactly one of the code units before and after it
  is a word character \<open>[A-Za-z0-9_]\<close>; beyond either end of the string there is none.
  With the flag \<open>i\<close> (and no flag \<open>u\<close>) a pattern letter matches its lower-case and
  its upper-case ASCII code unit and nothing else.
\<close>

definition is_word_char :: "cu \<Rightarrow> bool" where
  "is_word_char c \<longleftrightarrow>
     (48 \<le> c \<and> c \<le> 57) \<or> (65 \<le> c \<and> c \<le> 90) \<or> c = 95 \<or> (97 \<le> c \<and> c \<le> 122)"

definition word_at_head :: "jsstring \<Rightarrow> bool" where
  "word_at_head s = (case s of [] \<Rightarrow> False | c # _ \<Rightarrow> is_word_char c)"

text \<open>
  \<open>sudo_here prev s\<close>: the pattern matches at the position where \<open>s\<close> starts;
  \<open>prev\<close> tells whether the code unit in front of that position is a word character.
\<close>

fun sudo_here :: "bool \<Rightarrow> jsstring \<Rightarrow> bool" where
  "sudo_here prev (c1 # c2 # c3 # c4 # rest) =
     (prev \<noteq> is_word_char c1
      \<and> (c1 = 115 \<or> c1 = 83) \<and> (c2 = 117 \<or> c2 = 85)
      \<and> (c3 = 100 \<or> c3 = 68) \<and> (c4 = 111 \<or> c4 = 79)
      \<and> is_word_char c4 \<noteq> word_at_head rest)"
| "sudo_here prev _ = False"

text \<open>\<open>RegExp.prototype.test\<close> tries every start position from left to right.\<close>

fun sudo_from :: "bool \<Rightarrow> jsstring \<Rightarrow> bool" where
  "sudo_from prev [] = sudo_here prev []"
| "sudo_from prev (c # cs) =
     (sudo_here prev (c # cs) \<or> sudo_from (is_word_char c) cs)"

definition sudo_test :: "jsstring \<Rightarrow> bool" where
  "sudo_test s = sudo_from False s"

subsection \<open>\<open>data.split(/\<bslash>r?\<bslash>n/)\<close>\<close>

text \<open>
  The separator is LF, or CR immediately followed by LF. A CR that no LF follows stays in
  its line. The result always has at least one element; the empty string gives \<open>[""]\<close>.
\<close>

fun split_lines :: "jsstring \<Rightarrow> jsstring list" where
  "split_lines [] = [[]]"
| "split_lines (c # cs) =
     (if c = 10 then [] # split_lines cs
      else if c = 13 \<and> cs \<noteq> [] \<and> hd cs = 10 then [] # split_lines (tl cs)
      else (case split_lines cs of
              [] \<Rightarrow> [[c]]
            | l # ls \<Rightarrow> (c # l) # ls))"

section \<open>The script executor\<close>

subsection \<open>Data\<close>

text \<open>
  A child \<open>div\<close> of an output block: its \<open>className\<close> and its \<open>textContent\<close>.
\<close>

record line =
  className :: jsstring
  textContent :: jsstring

text \<open>
  A text with a formatted duration in it. \<open>ToFixed2 ms\<close> stands for the string
  \<open>(ms / 1000).toFixed(2)\<close>, which is floating-point formatting and is kept as the
  number of milliseconds it is computed from.
\<close>

datatype piece = Lit jsstring | ToFixed2 int

type_synonym rich_text = "piece list"

text \<open>
  An entry of \<open>commandHistory\<close>. The field \<open>output\<close> (here \<open>output_html\<close>) holds \<open>outputDiv.innerHTML\<close>,
  the serialisation of the block's children at the time of the push; it is kept as the
  list of those children.
\<close>

record history_entry =
  command :: jsstring
  output_html :: "line list"
  isError :: bool
  duration :: rich_text

text \<open>
  The children of \<open>#scriptOutput\<close>: the placeholder, a command echo, or an output block.
  An output block is an element that \<open>runScript\<close> keeps appending to after it has been
  attached, so it is held by reference: its number in the store \<open>divs\<close>.
\<close>

datatype node = Placeholder | CommandDiv jsstring | OutputBlock nat

text \<open>
  What the executor does to the operating system and the event loop, in order: a child
  process created by \<open>spawn\<close> (shell and arguments), a signal sent with \<open>kill\<close>,
  a timer armed with \<open>setTimeout\<close>, a timer cancelled with \<open>clearTimeout\<close>. A child
  process is named by the length of the log at the time it was created.
\<close>

datatype effect =
    Spawn jsstring "jsstring list"
  | Kill nat jsstring
  | SetTimeout int
  | ClearTimeout

text \<open>
  \<open>killTimer\<close> holds a \<open>Timeout\<close> object or \<open>null\<close>; the object stays in the field
  after its callback has run.
\<close>

datatype timer = Pending | Expired

text \<open>
  The local variables of a \<open>runScript\<close> call that is suspended at its \<open>await\<close>; the
  \<open>data\<close> handlers and the continuation after the \<open>await\<close> close over them.
\<close>

record run =
  script :: jsstring
  startTime :: int
  outputChars :: nat
  outputDiv :: nat

text \<open>
  The state between two events: the fields of the \<open>ScriptExecutor\<close> instance, the two
  elements of the page it writes to, the store of output blocks with the number of the
  next block to be created, the log of effects, and the suspended call, if any. The class
  has one \<open>isRunning\<close> flag and one \<open>currentProcess\<close> field, and \<open>timedOut\<close> and
  \<open>wasStopped\<close> are fields of the instance, not of a call.
\<close>

record world =
  isRunning :: bool
  currentProcess :: "nat option"
  commandHistory :: "history_entry list"
  killTimer :: "timer option"
  wasStopped :: bool
  timedOut :: bool
  scriptOutput :: "node list"
  executionTime :: rich_text
  divs :: "nat \<Rightarrow> line list"
  next_div :: nat
  effects :: "effect list"
  pending :: "run option"

definition timeoutMs :: int where
  "timeoutMs = 30000"

definition maxOutputChars :: nat where
  "maxOutputChars = 50000"

text \<open>
  A thrown or emitted \<open>Error\<close>. \<open>error.message || error\<close> is the message unless it is
  the empty string, and then the error converted to a string, which for an empty message
  is its name.
\<close>

record js_error =
  err_name :: jsstring
  err_message :: jsstring

definition error_text :: "js_error \<Rightarrow> jsstring" where
  "error_text e = (if err_message e \<noteq> [] then err_message e else err_name e)"

text \<open>
  What \<open>spawn\<close> does when \<open>runScript\<close> calls it: it returns a child process, or it
  throws (then the clock reading of the \<open>catch\<close> block comes with the error).
\<close>

datatype spawn_result = Spawned | Threw js_error int

subsection \<open>Helpers of the class\<close>

text \<open>
  \<open>appendLines\<close> adds one \<open>div\<close> for each non-empty line of the chunk and returns
  the sum of the lengths of the lines it added. The container is returned updated.
\<close>

definition appendLines :: "line list \<Rightarrow> jsstring \<Rightarrow> jsstring \<Rightarrow> line list \<times> nat" where
  "appendLines container data cls =
     fold (\<lambda>l (c, added).
             if l = [] then (c, added)
             else (c @ [\<lparr>className = js ''output-line '' @ cls, textContent = l\<rparr>],
                   added + length l))
          (split_lines data) (container, 0)"

definition appendMessage :: "line list \<Rightarrow> jsstring \<Rightarrow> jsstring \<Rightarrow> line list" where
  "appendMessage container txt cls = container @ [\<lparr>className = cls, textContent = txt\<rparr>]"

definition clearKillTimer :: "world \<Rightarrow> world" where
  "clearKillTimer w =
     (case killTimer w of
        None \<Rightarrow> w
      | Some t \<Rightarrow> w\<lparr>effects := effects w @ [ClearTimeout], killTimer := None\<rparr>)"

definition clearOutput :: "world \<Rightarrow> world" where
  "clearOutput w = w\<lparr>scriptOutput := [Placeholder], executionTime := [], commandHistory := []\<rparr>"

text \<open>\<open>if (this.currentProcess) this.currentProcess.kill('SIGTERM')\<close>\<close>

definition kill_current :: "world \<Rightarrow> world" where
  "kill_current w =
     (case currentProcess w of
        None \<Rightarrow> w
      | Some p \<Rightarrow> w\<lparr>effects := effects w @ [Kill p (js ''SIGTERM'')]\<rparr>)"

text \<open>
  The guard on the placeholder, the echo of the command and a fresh output block. The
  blocked branch attaches the block after writing its message and the normal branch before;
  the block is the same element either way.
\<close>

definition remove_placeholder :: "world \<Rightarrow> world" where
  "remove_placeholder w =
     (if Placeholder \<in> set (scriptOutput w) then w\<lparr>scriptOutput := []\<rparr> else w)"

definition echo_command :: "jsstring \<Rightarrow> world \<Rightarrow> world" where
  "echo_command s w = w\<lparr>scriptOutput := scriptOutput w @ [CommandDiv (js ''$ '' @ s)]\<rparr>"

definition attach_block :: "line list \<Rightarrow> world \<Rightarrow> world" where
  "attach_block ls w =
     w\<lparr>scriptOutput := scriptOutput w @ [OutputBlock (next_div w)],
       divs := (divs w)(next_div w := ls),
       next_div := Suc (next_div w)\<rparr>"

definition message_to :: "nat \<Rightarrow> jsstring \<Rightarrow> jsstring \<Rightarrow> world \<Rightarrow> world" where
  "message_to d txt cls w = w\<lparr>divs := (divs w)(d := appendMessage (divs w d) txt cls)\<rparr>"

text \<open>The non-ASCII marks of the messages: U+2717, U+23F9 U+FE0F, U+2713.\<close>

definition cross_mark :: jsstring where
  "cross_mark = [10007]"

definition stop_mark :: jsstring where
  "stop_mark = [9209, 65039]"

definition check_mark :: jsstring where
  "check_mark = [10003]"

text \<open>\<open>Math.round(this.timeoutMs / 1000)\<close>: the quotient rounded half up.\<close>

definition timeout_seconds :: int where
  "timeout_seconds = (2 * timeoutMs + 1000) div 2000"

subsection \<open>\<open>runScript\<close>\<close>

text \<open>
  The \<open>finally\<close> block, for the command \<open>s\<close> and the output block \<open>d\<close> of the call.
  The buttons and the scroll position are presentation and are left out of the model.
\<close>

definition finally_block :: "jsstring \<Rightarrow> nat \<Rightarrow> bool \<Rightarrow> rich_text \<Rightarrow> world \<Rightarrow> world" where
  "finally_block s d isErr dur w =
     (let w1 = clearKillTimer w
      in w1\<lparr>commandHistory := commandHistory w1 @
                [\<lparr>command = s, output_html = divs w1 d, isError = isErr, duration = dur\<rparr>],
            isRunning := False,
            currentProcess := None,
            pending := None\<rparr>)"

text \<open>The \<open>catch\<close> block followed by the \<open>finally\<close> block.\<close>

definition catch_block :: "jsstring \<Rightarrow> int \<Rightarrow> nat \<Rightarrow> js_error \<Rightarrow> int \<Rightarrow> world \<Rightarrow> world" where
  "catch_block s start d err now w =
     (let dur = [ToFixed2 (now - start)];
          w1 = w\<lparr>executionTime := [Lit (js ''Execution time: '')] @ dur @ [Lit (js ''s (failed)'')]\<rparr>;
          w2 = message_to d (cross_mark @ js '' Error: '' @ error_text err) (js ''output-error'') w1
      in finally_block s d True dur w2)"

text \<open>
  The call itself, up to its \<open>await\<close>: \<open>val\<close> is \<open>scriptInput.value\<close>, \<open>now\<close> is what
  \<open>Date.now()\<close> returns for \<open>startTime\<close>, and \<open>sp\<close> is what \<open>spawn\<close> does. The two
  guards return without a trace; the blocked branch returns after writing its message;
  otherwise the call spawns, arms the timer and stays suspended in \<open>pending\<close>, unless
  \<open>spawn\<close> throws, which the \<open>catch\<close> block handles in the same call.
\<close>

definition runScript :: "jsstring \<Rightarrow> int \<Rightarrow> spawn_result \<Rightarrow> world \<Rightarrow> world" where
  "runScript val now sp w =
     (let s = trim val in
      if s = [] \<or> isRunning w then w
      else if sudo_test s then
        (let w1 = echo_command s (remove_placeholder w);
             d = next_div w1;
             w2 = attach_block
                    (appendMessage [] (cross_mark @ js '' sudo is blocked in this app'')
                       (js ''output-error'')) w1
         in w2\<lparr>commandHistory := commandHistory w2 @
                  [\<lparr>command = s, output_html = divs w2 d, isError = True,
                    duration = [Lit (js ''0.00'')]\<rparr>],
               executionTime := []\<rparr>)
      else
        (let w1 = w\<lparr>isRunning := True, wasStopped := False, timedOut := False\<rparr>;
             w2 = echo_command s (remove_placeholder w1);
             d = next_div w2;
             w3 = attach_block [] w2
         in case sp of
              Threw err t \<Rightarrow> catch_block s now d err t w3
            | Spawned \<Rightarrow>
                w3\<lparr>effects := effects w3 @
                      [Spawn (js ''/bin/zsh'') [js ''-c'', s], SetTimeout timeoutMs],
                    currentProcess := Some (length (effects w3)),
                    killTimer := Some Pending,
                    pending := Some \<lparr>script = s, startTime = now, outputChars = 0,
                                     outputDiv = d\<rparr>\<rparr>))"

text \<open>The callback of the timer. It runs at most once, while the timer is pending.\<close>

definition on_timer :: "world \<Rightarrow> world" where
  "on_timer w =
     (case killTimer w of
        Some Pending \<Rightarrow> kill_current (w\<lparr>killTimer := Some Expired, timedOut := True\<rparr>)
      | _ \<Rightarrow> w)"

text \<open>
  The \<open>data\<close> handler of \<open>stdout\<close> (\<open>cls\<close> is \<open>output-stdout\<close>) and of \<open>stderr\<close>
  (\<open>output-stderr\<close>); the two differ in the class name only.
\<close>

definition on_data :: "jsstring \<Rightarrow> jsstring \<Rightarrow> world \<Rightarrow> world" where
  "on_data cls data w =
     (case pending w of
        None \<Rightarrow> w
      | Some r \<Rightarrow>
          if outputChars r > maxOutputChars \<or> timedOut w \<or> wasStopped w then w
          else
            (let (c, added) = appendLines (divs w (outputDiv r)) data cls;
                 r1 = r\<lparr>outputChars := outputChars r + added\<rparr>;
                 w1 = w\<lparr>divs := (divs w)(outputDiv r := c), pending := Some r1\<rparr>
             in if outputChars r1 > maxOutputChars then
                  kill_current
                    ((message_to (outputDiv r)
                        (stop_mark @ js '' Output truncated (too large)'') (js ''output-error'')
                        w1)\<lparr>wasStopped := True\<rparr>)
                else w1))"

text \<open>
  The continuation after the \<open>await\<close> when the promise is resolved by \<open>close\<close>, followed
  by the \<open>finally\<close> block. The handler ignores the signal.
\<close>

definition on_close :: "int option \<Rightarrow> jsstring option \<Rightarrow> int \<Rightarrow> world \<Rightarrow> world" where
  "on_close code signal now w =
     (case pending w of
        None \<Rightarrow> w
      | Some r \<Rightarrow>
          (let dur = [ToFixed2 (now - startTime r)];
               durationText =
                 (if timedOut w then
                    [Lit (js ''Execution time: '')] @ dur @ [Lit (js ''s (timeout)'')]
                  else if wasStopped w then
                    [Lit (js ''Execution time: '')] @ dur @ [Lit (js ''s (stopped)'')]
                  else [Lit (js ''Execution time: '')] @ dur @ [Lit (js ''s'')]);
               w1 = w\<lparr>executionTime := durationText\<rparr>;
               d = outputDiv r
           in if timedOut w1 then
                finally_block (script r) d True dur
                  (message_to d
                     (cross_mark @ js '' Timed out after '' @ show_int timeout_seconds @ js ''s'')
                     (js ''output-error'') w1)
              else if wasStopped w1 then
                finally_block (script r) d True dur
                  (message_to d (stop_mark @ js '' Execution stopped by user'')
                     (js ''output-error'') w1)
              else if code = Some 0 \<or> code = None then
                finally_block (script r) d False dur
                  (message_to d (check_mark @ js '' Completed successfully'')
                     (js ''output-success'') w1)
              else
                finally_block (script r) d True dur
                  (message_to d
                     (cross_mark @ js '' Error: exited with code '' @ show_int (the code))
                     (js ''output-error'') w1)))"

text \<open>The promise rejected by the \<open>error\<close> event of the child process.\<close>

definition on_error :: "js_error \<Rightarrow> int \<Rightarrow> world \<Rightarrow> world" where
  "on_error err now w =
     (case pending w of
        None \<Rightarrow> w
      | Some r \<Rightarrow> catch_block (script r) (startTime r) (outputDiv r) err now w)"

definition stopScript :: "world \<Rightarrow> world" where
  "stopScript w =
     (if currentProcess w \<noteq> None \<and> isRunning w
      then kill_current (w\<lparr>wasStopped := True\<rparr>)
      else w)"

subsection \<open>Events\<close>

text \<open>
  What the event loop delivers to the executor: a click on Run (or the Enter key), on Stop
  or on Clear, a chunk on either stream of the child, the timer, and the \<open>close\<close> and
  \<open>error\<close> events of the child. The events of a child are delivered to the call that
  is suspended on it. \<open>close\<close> and \<open>error\<close> do nothing once the promise is settled,
  and the timer is cleared when the call settles; chunks that a child would still write
  after its call was settled by \<open>error\<close> are not part of the model.
\<close>

datatype event =
    RunClicked jsstring int spawn_result
  | StopClicked
  | ClearClicked
  | StdoutData jsstring
  | StderrData jsstring
  | TimerFired
  | Close "int option" "jsstring option" int
  | ProcError js_error int

fun step :: "world \<Rightarrow> event \<Rightarrow> world" where
  "step w (RunClicked val now sp) = runScript val now sp w"
| "step w StopClicked = stopScript w"
| "step w ClearClicked = clearOutput w"
| "step w (StdoutData data) = on_data (js ''output-stdout'') data w"
| "step w (StderrData data) = on_data (js ''output-stderr'') data w"
| "step w TimerFired = on_timer w"
| "step w (Close code signal now) = on_close code signal now w"
| "step w (ProcError err now) = on_error err now w"

definition run_events :: "world \<Rightarrow> event list \<Rightarrow> world" where
  "run_events w evs = foldl step w evs"

text \<open>
  The executor as its constructor leaves it, on a page whose \<open>#scriptOutput\<close> has the
  children \<open>nodes\<close> and whose \<open>#executionTime\<close> shows \<open>txt\<close>.
\<close>

definition initial :: "node list \<Rightarrow> rich_text \<Rightarrow> world" where
  "initial nodes txt =
     \<lparr>isRunning = False, currentProcess = None, commandHistory = [], killTimer = None,
      wasStopped = False, timedOut = False, scriptOutput = nodes, executionTime = txt,
      divs = (\<lambda>_. []), next_div = 0, effects = [], pending = None\<rparr>"

section \<open>Notions used in the statements\<close>

text \<open>
  A standalone occurrence of the token \<open>sudo\<close>, whatever the case of its letters: four
  code units at some position \<open>i\<close> that read \<open>sudo\<close> once upper-case ASCII letters
  are lowered, with no word character directly before and none directly after.
\<close>

definition ascii_lower :: "cu \<Rightarrow> cu" where
  "ascii_lower c = (if 65 \<le> c \<and> c \<le> 90 then c + 32 else c)"

definition standalone_sudo_at :: "jsstring \<Rightarrow> nat \<Rightarrow> bool" where
  "standalone_sudo_at s i \<longleftrightarrow>
     i + 4 \<le> length s
     \<and> map ascii_lower (take 4 (drop i s)) = js ''sudo''
     \<and> (i = 0 \<or> \<not> is_word_char (s ! (i - 1)))
     \<and> (i + 4 = length s \<or> \<not> is_word_char (s ! (i + 4)))"

definition standalone_sudo :: "jsstring \<Rightarrow> bool" where
  "standalone_sudo s \<longleftrightarrow> (\<exists>i \<in> set (upt 0 (length s)). standalone_sudo_at s i)"

text \<open>
  The code units of a chunk that belong to its line breaks: every LF, and every CR that
  an LF follows directly.
\<close>

fun line_break_units :: "jsstring \<Rightarrow> nat" where
  "line_break_units [] = 0"
| "line_break_units (c # cs) =
     (if c = 10 \<or> (c = 13 \<and> cs \<noteq> [] \<and> hd cs = 10) then 1 else 0) + line_break_units cs"

text \<open>The \<open>div\<close>s that \<open>appendLines\<close> adds for a chunk: its non-empty lines.\<close>

definition chunk_lines :: "jsstring \<Rightarrow> jsstring \<Rightarrow> line list" where
  "chunk_lines cls data =
     map (\<lambda>l. \<lparr>className = js ''output-line '' @ cls, textContent = l\<rparr>)
       (filter (\<lambda>l. l \<noteq> []) (split_lines data))"

text \<open>
  A run is marked when the guard at the top of the \<open>data\<close> handlers holds for it: it is
  over the output cap, timed out or stopped.
\<close>

definition marked :: "world \<Rightarrow> bool" where
  "marked w \<longleftrightarrow>
     (case pending w of
        None \<Rightarrow> False
      | Some r \<Rightarrow> outputChars r > maxOutputChars \<or> timedOut w \<or> wasStopped w)"

text \<open>
  The events that leave a suspended call suspended: all but \<open>close\<close> and \<open>error\<close>.
\<close>

fun settles :: "event \<Rightarrow> bool" where
  "settles (Close code signal now) = True"
| "settles (ProcError err now) = True"
| "settles _ = False"

text \<open>
  What holds of the executor between events: a call is suspended exactly when
  \<open>isRunning\<close> is set and exactly when there is a current process; the timer field is
  set while a call is suspended and \<open>null\<close> otherwise; the output block of the suspended
  call has been allocated; and a call over the output cap has been stopped.
\<close>

definition consistent :: "world \<Rightarrow> bool" where
  "consistent w \<longleftrightarrow>
     (case pending w of
        None \<Rightarrow> \<not> isRunning w \<and> currentProcess w = None \<and> killTimer w = None
      | Some r \<Rightarrow> isRunning w \<and> currentProcess w \<noteq> None \<and> killTimer w \<noteq> None
                  \<and> outputDiv r < next_div w
                  \<and> (outputChars r > maxOutputChars \<longrightarrow> wasStopped w))"

text \<open>
  The suspended call is the one for the command \<open>s\<close>, started at \<open>t\<close>, writing to the
  block \<open>d\<close>, with the child process \<open>p\<close>.
\<close>

definition flying :: "jsstring \<Rightarrow> int \<Rightarrow> nat \<Rightarrow> nat \<Rightarrow> world \<Rightarrow> bool" where
  "flying s t d p w \<longleftrightarrow>
     isRunning w \<and> currentProcess w = Some p
     \<and> (case pending w of
           None \<Rightarrow> False
         | Some r \<Rightarrow> script r = s \<and> startTime r = t \<and> outputDiv r = d)"

text \<open>
  What a chunk adds to \<open>outputChars\<close>, in the specification's terms: its code units
  that are not part of a line break.
\<close>

definition counted :: "jsstring \<Rightarrow> nat" where
  "counted data = length data - line_break_units data"

text \<open>The chunks among a list of events, in the order of their arrival.\<close>

fun chunk_of :: "event \<Rightarrow> jsstring option" where
  "chunk_of (StdoutData data) = Some data"
| "chunk_of (StderrData data) = Some data"
| "chunk_of _ = None"

definition chunks :: "event list \<Rightarrow> jsstring list" where
  "chunks evs = List.map_filter chunk_of evs"

text \<open>
  The counter of the suspended call is within the cap, or beyond it by no more than what
  one of the chunks among the events \<open>evs\<close> counts for.
\<close>

definition within_a_chunk :: "event list \<Rightarrow> world \<Rightarrow> bool" where
  "within_a_chunk evs w \<longleftrightarrow>
     (case pending w of
        None \<Rightarrow> True
      | Some r \<Rightarrow>
          outputChars r \<le> maxOutputChars
          \<or> (\<exists>data \<in> set (chunks evs). outputChars r \<le> maxOutputChars + counted data))"

section \<open>Strings: lemmas\<close>

lemma trim_blank: "\<forall>c\<in>set s. is_space c \<Longrightarrow> trim s = []"
proof -
  assume "\<forall>c\<in>set s. is_space c"
  then have "dropWhile is_space s = []"
    by (induction s) auto
  then show ?thesis
    unfolding trim_def by (simp only: rev.simps dropWhile.simps)
qed

section \<open>Blank input\<close>

text \<open>
  C9. Submitting an empty or whitespace-only command line is a silent no-op: the executor
  is left exactly as it was, so no run is created, no process is spawned, nothing is
  written to the output, and the history gets no entry.
\<close>

theorem runScript_blank_is_noop:
  "\<forall>c\<in>set val. is_space c \<Longrightarrow> runScript val now sp w = w"
  by (simp add: runScript_def trim_blank)

theorem runScript_blank_is_noop_witness:
  "is_space 32 \<and> is_space 9 \<and> is_space 10
   \<and> runScript [32, 9, 10] 7 Spawned (initial [Placeholder] []) = initial [Placeholder] []"
proof -
  have h: "\<forall>c\<in>set [32, 9, 10]. is_space c"
    by (simp add: is_space_def)
  from runScript_blank_is_noop [OF h] show ?thesis
    using h by simp
qed

section \<open>Lines of a chunk\<close>

lemma split_lines_nonempty: "split_lines s \<noteq> []"
  by (induction s rule: split_lines.induct) (auto split: list.splits)

lemma split_lines_units:
  "sum_list (map length (split_lines s)) + line_break_units s = length s"
proof (induction s rule: split_lines.induct)
  case 1
  then show ?case by simp
next
  case (2 c cs)
  show ?case
  proof (cases "c = 10")
    case True
    with 2 show ?thesis by simp
  next
    case nl: False
    show ?thesis
    proof (cases "c = 13 \<and> cs \<noteq> [] \<and> hd cs = 10")
      case True
      then obtain cs' where cs: "cs = 10 # cs'" by (cases cs) auto
      from 2(2) nl True have "sum_list (map length (split_lines cs')) + line_break_units cs' = length cs'"
        using cs by simp
      with True cs show ?thesis by simp
    next
      case False
      obtain l ls where sp: "split_lines cs = l # ls"
        using split_lines_nonempty [of cs] by (cases "split_lines cs") auto
      from 2(3) nl False have "sum_list (map length (split_lines cs)) + line_break_units cs = length cs"
        by simp
      with nl False sp show ?thesis by auto
    qed
  qed
qed

lemma appendLines_fold:
  "fold (\<lambda>l (c, added).
           if l = [] then (c, added)
           else (c @ [\<lparr>className = k, textContent = l\<rparr>], added + length l))
        ls (c0, a0)
   = (c0 @ map (\<lambda>l. \<lparr>className = k, textContent = l\<rparr>) (filter (\<lambda>l. l \<noteq> []) ls),
      a0 + sum_list (map length ls))"
  by (induction ls arbitrary: c0 a0) auto

lemma appendLines_eq:
  "appendLines c data cls = (c @ chunk_lines cls data, sum_list (map length (split_lines data)))"
  by (simp add: appendLines_def chunk_lines_def appendLines_fold)

lemma line_break_units_le: "line_break_units s \<le> length s"
  using split_lines_units [of s] by linarith

section \<open>The data handlers\<close>

lemma on_data_marked: "marked w \<Longrightarrow> on_data cls data w = w"
  by (auto simp: on_data_def marked_def split: option.splits)

lemma on_data_idle: "pending w = None \<Longrightarrow> on_data cls data w = w"
  by (simp add: on_data_def)

lemma on_data_unmarked:
  assumes "pending w = Some r" and "\<not> marked w"
  shows "on_data cls data w =
     (let r1 = r\<lparr>outputChars := outputChars r + counted data\<rparr>;
          w1 = w\<lparr>divs := (divs w)(outputDiv r := divs w (outputDiv r) @ chunk_lines cls data),
                 pending := Some r1\<rparr>
      in if outputChars r1 > maxOutputChars then
           kill_current
             ((message_to (outputDiv r)
                 (stop_mark @ js '' Output truncated (too large)'') (js ''output-error'')
                 w1)\<lparr>wasStopped := True\<rparr>)
         else w1)"
proof -
  have c: "sum_list (map length (split_lines data)) = counted data"
    using split_lines_units [of data] by (simp add: counted_def)
  from assms show ?thesis
    by (simp add: on_data_def marked_def appendLines_eq c Let_def)
qed

lemma pending_kill_current [simp]: "pending (kill_current w) = pending w"
  by (simp add: kill_current_def split: option.splits)

lemma pending_message_to [simp]: "pending (message_to d t c w) = pending w"
  by (simp add: message_to_def)

lemma on_data_pending:
  assumes "pending w = Some r" and "\<not> marked w"
  shows "pending (on_data cls data w) = Some (r\<lparr>outputChars := outputChars r + counted data\<rparr>)"
  using assms by (simp add: on_data_unmarked Let_def)

text \<open>
  C10. A chunk that the handlers accept raises \<open>outputChars\<close> by the lengths of its
  non-empty lines only. The code units of its line breaks (every LF, and a CR directly
  before an LF) and its empty lines add nothing, so the counter that is compared with the
  cap lags behind the length of the chunk by exactly the line-break units, and is strictly
  smaller than it as soon as the chunk has a line break. (The chunk as a string has no
  more code units than the buffer has bytes.)
\<close>

theorem counted_chars_exclude_line_breaks:
  assumes "pending w = Some r" and "\<not> marked w"
    and "ev = StdoutData data \<or> ev = StderrData data"
  shows "\<exists>r'. pending (step w ev) = Some r'
           \<and> outputChars r' =
               outputChars r + sum_list (map length (filter (\<lambda>l. l \<noteq> []) (split_lines data)))
           \<and> outputChars r' + line_break_units data = outputChars r + length data
           \<and> (0 < line_break_units data \<longrightarrow> outputChars r' < outputChars r + length data)"
proof -
  have eq: "sum_list (map length (filter (\<lambda>l. l \<noteq> []) (split_lines data))) = counted data"
  proof -
    have "sum_list (map length (filter (\<lambda>l. l \<noteq> []) ls)) = sum_list (map length ls)" for ls :: "jsstring list"
      by (induction ls) auto
    then show ?thesis
      using split_lines_units [of data] by (simp add: counted_def)
  qed
  from assms(3) obtain cls where st: "step w ev = on_data cls data w"
    by auto
  have le: "line_break_units data \<le> length data"
    by (rule line_break_units_le)
  show ?thesis
    unfolding st on_data_pending [OF assms(1,2)] eq
    using le by (auto simp: counted_def)
qed

section \<open>What holds between events\<close>

lemmas handler_defs =
  runScript_def on_data_def on_close_def on_error_def on_timer_def stopScript_def clearOutput_def
  catch_block_def finally_block_def clearKillTimer_def kill_current_def message_to_def
  attach_block_def echo_command_def remove_placeholder_def

lemma consistent_initial: "consistent (initial nodes txt)"
  by (simp add: consistent_def initial_def)

lemma consistent_runScript: "consistent w \<Longrightarrow> consistent (runScript val now sp w)"
  by (auto simp: consistent_def handler_defs Let_def maxOutputChars_def
      split: option.splits spawn_result.splits)

lemma consistent_on_data: "consistent w \<Longrightarrow> consistent (on_data cls data w)"
  by (auto simp: consistent_def on_data_def kill_current_def message_to_def Let_def
      split: option.splits prod.splits)

lemma consistent_on_close: "consistent w \<Longrightarrow> consistent (on_close code signal now w)"
  by (auto simp: consistent_def on_close_def finally_block_def clearKillTimer_def message_to_def Let_def
      split: option.splits)

lemma consistent_on_error: "consistent w \<Longrightarrow> consistent (on_error err now w)"
  by (auto simp: consistent_def on_error_def catch_block_def finally_block_def clearKillTimer_def message_to_def Let_def
      split: option.splits)

lemma consistent_on_timer: "consistent w \<Longrightarrow> consistent (on_timer w)"
  by (auto simp: consistent_def on_timer_def kill_current_def
      split: option.splits timer.splits)

lemma consistent_stopScript: "consistent w \<Longrightarrow> consistent (stopScript w)"
  by (auto simp: consistent_def stopScript_def kill_current_def split: option.splits)

lemma consistent_clearOutput: "consistent w \<Longrightarrow> consistent (clearOutput w)"
  by (auto simp: consistent_def clearOutput_def split: option.splits)

lemma consistent_step: "consistent w \<Longrightarrow> consistent (step w ev)"
  by (cases ev)
    (simp_all add: consistent_runScript consistent_on_data consistent_on_close
      consistent_on_error consistent_on_timer consistent_stopScript consistent_clearOutput)

lemma consistent_run_events: "consistent w \<Longrightarrow> consistent (run_events w evs)"
  unfolding run_events_def
  by (induction evs arbitrary: w) (simp_all add: consistent_step)

lemma consistent_reachable: "consistent (run_events (initial nodes txt) evs)"
  by (simp add: consistent_run_events consistent_initial)

section \<open>While a call is suspended\<close>

lemma runScript_running: "isRunning w \<Longrightarrow> runScript val now sp w = w"
  by (simp add: runScript_def)

lemma flying_step:
  assumes "flying s t d p w" and "\<not> settles ev"
  shows "flying s t d p (step w ev)"
proof (cases ev)
  case (RunClicked val now sp)
  with assms show ?thesis by (simp add: runScript_running flying_def)
next
  case StopClicked
  with assms show ?thesis
    by (auto simp: flying_def stopScript_def kill_current_def split: option.splits)
next
  case ClearClicked
  with assms show ?thesis by (simp add: flying_def clearOutput_def)
next
  case (StdoutData data)
  with assms show ?thesis
    by (auto simp: flying_def on_data_def kill_current_def message_to_def Let_def
        split: option.splits prod.splits)
next
  case (StderrData data)
  with assms show ?thesis
    by (auto simp: flying_def on_data_def kill_current_def message_to_def Let_def
        split: option.splits prod.splits)
next
  case TimerFired
  with assms show ?thesis
    by (auto simp: flying_def on_timer_def kill_current_def split: option.splits timer.splits)
next
  case (Close code signal now)
  with assms show ?thesis by simp
next
  case (ProcError err now)
  with assms show ?thesis by simp
qed

lemma flying_run_events:
  "flying s t d p w \<Longrightarrow> \<forall>ev\<in>set evs. \<not> settles ev \<Longrightarrow> flying s t d p (run_events w evs)"
  unfolding run_events_def
  by (induction evs arbitrary: w) (simp_all add: flying_step)



section \<open>Resolution on close\<close>

lemmas settle_defs =
  on_close_def on_error_def catch_block_def finally_block_def clearKillTimer_def message_to_def
  appendMessage_def

text \<open>
  C6. When the child closes with the exit code \<open>null\<close> and the run is neither timed
  out nor stopped, the run resolves exactly as it does for the exit code 0: the success
  message is written, the history entry is not an error, and the execution time carries no
  suffix.
\<close>

theorem null_exit_code_is_success:
  assumes "pending w = Some r" and "\<not> timedOut w" and "\<not> wasStopped w"
  shows "step w (Close None signal now) = step w (Close (Some 0) signal now)
     \<and> commandHistory (step w (Close None signal now)) =
         commandHistory w @
           [\<lparr>command = script r,
             output_html = divs w (outputDiv r) @
               [\<lparr>className = js ''output-success'',
                 textContent = check_mark @ js '' Completed successfully''\<rparr>],
             isError = False,
             duration = [ToFixed2 (now - startTime r)]\<rparr>]
     \<and> executionTime (step w (Close None signal now)) =
         [Lit (js ''Execution time: ''), ToFixed2 (now - startTime r), Lit (js ''s'')]
     \<and> \<not> isRunning (step w (Close None signal now))
     \<and> pending (step w (Close None signal now)) = None"
  using assms by (simp add: settle_defs Let_def split: option.splits)


text \<open>
  C5. In every state the executor can reach, \<open>isRunning\<close> is set exactly when a call is
  suspended, and a submission made then returns at the first guard: nothing is queued and
  the state of the run in flight, its output and its timer are left as they were.
\<close>

theorem one_run_at_a_time:
  assumes "w = run_events (initial nodes txt) evs"
  shows "(isRunning w \<longleftrightarrow> pending w \<noteq> None)
     \<and> (pending w \<noteq> None \<longrightarrow> step w (RunClicked val now sp) = w)"
proof -
  have "consistent w"
    unfolding assms by (rule consistent_reachable)
  then have "isRunning w \<longleftrightarrow> pending w \<noteq> None"
    by (auto simp: consistent_def split: option.splits)
  then show ?thesis
    by (simp add: runScript_running)
qed


section \<open>The output cap\<close>

lemma counted_le: "counted data \<le> length data"
  by (simp add: counted_def)

lemma consistent_cap: "consistent w \<Longrightarrow> pending w = Some r \<Longrightarrow> \<not> marked w \<Longrightarrow> outputChars r \<le> maxOutputChars"
  by (auto simp: consistent_def marked_def)

lemma chunks_snoc:
  "set (chunks (evs @ [ev])) = set (chunks evs) \<union> set_option (chunk_of ev)"
  by (auto simp: chunks_def List.map_filter_def)

lemma within_a_chunk_mono:
  "within_a_chunk evs w \<Longrightarrow> within_a_chunk (evs @ [ev]) w"
  by (auto simp: within_a_chunk_def chunks_snoc split: option.splits)

lemma within_a_chunk_data:
  assumes "consistent w" and "within_a_chunk evs w" and "chunk_of ev = Some data"
  shows "within_a_chunk (evs @ [ev]) (on_data cls data w)"
proof (cases "pending w")
  case None
  with assms show ?thesis by (simp add: on_data_idle within_a_chunk_def)
next
  case (Some r)
  show ?thesis
  proof (cases "marked w")
    case True
    with assms(2) show ?thesis by (simp add: on_data_marked within_a_chunk_mono)
  next
    case False
    from consistent_cap [OF assms(1) Some False] have "outputChars r \<le> maxOutputChars" .
    then have "outputChars r + counted data \<le> maxOutputChars + counted data" by simp
    with assms(3) show ?thesis
      unfolding within_a_chunk_def on_data_pending [OF Some False]
      by (auto simp: chunks_snoc)
  qed
qed

lemma within_a_chunk_step:
  assumes "consistent w" and "within_a_chunk evs w"
  shows "within_a_chunk (evs @ [ev]) (step w ev)"
proof (cases ev)
  case (RunClicked val now sp)
  have "within_a_chunk (evs @ [ev]) (runScript val now sp w)"
    using within_a_chunk_mono [OF assms(2), of ev]
    by (auto simp: within_a_chunk_def handler_defs Let_def split: option.splits spawn_result.splits)
  with RunClicked show ?thesis by simp
next
  case StopClicked
  with within_a_chunk_mono [OF assms(2), of ev] show ?thesis
    by (auto simp: within_a_chunk_def stopScript_def kill_current_def split: option.splits)
next
  case ClearClicked
  with within_a_chunk_mono [OF assms(2), of ev] show ?thesis
    by (auto simp: within_a_chunk_def clearOutput_def split: option.splits)
next
  case (StdoutData data)
  with within_a_chunk_data [OF assms, of ev data "js ''output-stdout''"] show ?thesis by simp
next
  case (StderrData data)
  with within_a_chunk_data [OF assms, of ev data "js ''output-stderr''"] show ?thesis by simp
next
  case TimerFired
  with within_a_chunk_mono [OF assms(2), of ev] show ?thesis
    by (auto simp: within_a_chunk_def on_timer_def kill_current_def split: option.splits timer.splits)
next
  case (Close code signal now)
  then show ?thesis
    by (auto simp: within_a_chunk_def settle_defs Let_def split: option.splits)
next
  case (ProcError err now)
  then show ?thesis
    by (auto simp: within_a_chunk_def settle_defs Let_def split: option.splits)
qed

lemma run_events_snoc: "run_events w (evs @ [ev]) = step (run_events w evs) ev"
  by (simp add: run_events_def)

lemma within_a_chunk_reachable: "within_a_chunk evs (run_events (initial nodes txt) evs)"
proof (induction evs rule: rev_induct)
  case Nil
  then show ?case by (simp add: within_a_chunk_def run_events_def initial_def)
next
  case (snoc ev evs)
  then show ?case
    unfolding run_events_snoc
    by (intro within_a_chunk_step consistent_reachable)
qed

text \<open>
  C3. The cap is 50000. In every state the executor can reach, the counter of the run in
  flight is within the cap, or the run has been stopped and the counter is beyond the cap
  by no more than one of the chunks received counts for. The cap is compared only after
  a chunk has been appended: a chunk that arrives while the run is not marked is appended
  whole, and if it takes the counter past the cap, the truncation notice is appended after
  it, the run is marked stopped and the child is sent SIGTERM.
\<close>

theorem output_overshoots_cap_by_one_chunk_at_most:
  assumes "w = run_events (initial nodes txt) evs" and "pending w = Some r"
  shows "maxOutputChars = 50000
     \<and> (outputChars r \<le> maxOutputChars
        \<or> wasStopped w
          \<and> (\<exists>data \<in> set (chunks evs).
                outputChars r \<le> maxOutputChars + counted data
                \<and> counted data \<le> length data))
     \<and> (\<not> marked w
          \<and> (e = StdoutData chunk \<and> cls = js ''output-stdout''
             \<or> e = StderrData chunk \<and> cls = js ''output-stderr'') \<longrightarrow>
        outputChars r \<le> maxOutputChars
        \<and> (let n = outputChars r + counted chunk;
                w1 = w\<lparr>divs := (divs w)(outputDiv r := divs w (outputDiv r) @ chunk_lines cls chunk),
                       pending := Some (r\<lparr>outputChars := n\<rparr>)\<rparr>
            in if n \<le> maxOutputChars then step w e = w1
               else \<exists>p. currentProcess w = Some p
                      \<and> step w e =
                          w1\<lparr>divs := (divs w1)(outputDiv r := divs w1 (outputDiv r) @
                                  [\<lparr>className = js ''output-error'',
                                    textContent = stop_mark @ js '' Output truncated (too large)''\<rparr>]),
                             wasStopped := True,
                             effects := effects w @ [Kill p (js ''SIGTERM'')]\<rparr>))"
proof -
  have c: "consistent w"
    unfolding assms(1) by (rule consistent_reachable)
  have "within_a_chunk evs w"
    unfolding assms(1) by (rule within_a_chunk_reachable)
  with assms(2) c have inv:
    "outputChars r \<le> maxOutputChars
     \<or> wasStopped w
       \<and> (\<exists>data \<in> set (chunks evs).
             outputChars r \<le> maxOutputChars + counted data
             \<and> counted data \<le> length data)"
    by (auto simp: within_a_chunk_def consistent_def counted_le)
  have stp: "outputChars r \<le> maxOutputChars
        \<and> (let n = outputChars r + counted chunk;
                w1 = w\<lparr>divs := (divs w)(outputDiv r := divs w (outputDiv r) @ chunk_lines cls chunk),
                       pending := Some (r\<lparr>outputChars := n\<rparr>)\<rparr>
            in if n \<le> maxOutputChars then step w e = w1
               else \<exists>p. currentProcess w = Some p
                      \<and> step w e =
                          w1\<lparr>divs := (divs w1)(outputDiv r := divs w1 (outputDiv r) @
                                  [\<lparr>className = js ''output-error'',
                                    textContent = stop_mark @ js '' Output truncated (too large)''\<rparr>]),
                             wasStopped := True,
                             effects := effects w @ [Kill p (js ''SIGTERM'')]\<rparr>)"
    if u: "\<not> marked w"
      and e: "e = StdoutData chunk \<and> cls = js ''output-stdout''
             \<or> e = StderrData chunk \<and> cls = js ''output-stderr''"
  proof -
    from e have st: "step w e = on_data cls chunk w" by auto
    from c assms(2) obtain p where p: "currentProcess w = Some p"
      by (auto simp: consistent_def)
    from consistent_cap [OF c assms(2) u] p show ?thesis
      unfolding st on_data_unmarked [OF assms(2) u]
      by (simp add: Let_def kill_current_def message_to_def appendMessage_def)
  qed
  from inv stp show ?thesis
    by (simp add: maxOutputChars_def)
qed

section \<open>The timer\<close>

lemma runScript_spawned:
  assumes "trim val \<noteq> []" and "\<not> isRunning w" and "\<not> sudo_test (trim val)"
  shows "runScript val now Spawned w =
     w\<lparr>isRunning := True, wasStopped := False, timedOut := False,
       scriptOutput := (if Placeholder \<in> set (scriptOutput w) then [] else scriptOutput w) @
          [CommandDiv (js ''$ '' @ trim val), OutputBlock (next_div w)],
       divs := (divs w)(next_div w := []),
       next_div := Suc (next_div w),
       effects := effects w @ [Spawn (js ''/bin/zsh'') [js ''-c'', trim val], SetTimeout timeoutMs],
       currentProcess := Some (length (effects w)),
       killTimer := Some Pending,
       pending := Some \<lparr>script = trim val, startTime = now, outputChars = 0,
                        outputDiv = next_div w\<rparr>\<rparr>"
  using assms
  by (simp add: runScript_def Let_def attach_block_def echo_command_def remove_placeholder_def)

lemma runScript_flying:
  assumes "trim val \<noteq> []" and "\<not> isRunning w" and "\<not> sudo_test (trim val)"
  shows "flying (trim val) now (next_div w) (length (effects w)) (runScript val now Spawned w)"
  by (simp add: runScript_spawned [OF assms] flying_def)

lemma timer_pending_step:
  assumes "isRunning w" and "killTimer w = Some Pending" and "\<not> settles ev" and "ev \<noteq> TimerFired"
  shows "killTimer (step w ev) = Some Pending"
proof (cases ev)
  case (RunClicked val now sp)
  with assms show ?thesis by (simp add: runScript_running)
next
  case StopClicked
  with assms show ?thesis
    by (auto simp: stopScript_def kill_current_def split: option.splits)
next
  case ClearClicked
  with assms show ?thesis by (simp add: clearOutput_def)
next
  case (StdoutData data)
  with assms show ?thesis
    by (auto simp: on_data_def kill_current_def message_to_def Let_def
        split: option.splits prod.splits)
next
  case (StderrData data)
  with assms show ?thesis
    by (auto simp: on_data_def kill_current_def message_to_def Let_def
        split: option.splits prod.splits)
next
  case TimerFired
  with assms show ?thesis by simp
next
  case (Close code signal now)
  with assms show ?thesis by simp
next
  case (ProcError err now)
  with assms show ?thesis by simp
qed

lemma timer_pending_run_events:
  assumes "flying s t d p w" and "killTimer w = Some Pending"
    and "\<forall>ev\<in>set evs. \<not> settles ev \<and> ev \<noteq> TimerFired"
  shows "killTimer (run_events w evs) = Some Pending"
  using assms
proof (induction evs arbitrary: w)
  case Nil
  then show ?case by (simp add: run_events_def)
next
  case (Cons ev evs)
  from Cons.prems have f: "flying s t d p (step w ev)"
    by (simp add: flying_step)
  from Cons.prems have "isRunning w" by (simp add: flying_def)
  with Cons.prems have k: "killTimer (step w ev) = Some Pending"
    by (simp add: timer_pending_step)
  from Cons.IH [OF f k] Cons.prems(3) show ?case
    by (simp add: run_events_def)
qed

lemma on_timer_pending:
  assumes "flying s t d p w" and "killTimer w = Some Pending"
  shows "timedOut (on_timer w) \<and> effects (on_timer w) = effects w @ [Kill p (js ''SIGTERM'')]"
  using assms by (simp add: on_timer_def kill_current_def flying_def)

lemma timedOut_step:
  assumes "isRunning w" and "timedOut w" and "\<not> settles ev"
  shows "timedOut (step w ev)"
proof (cases ev)
  case (RunClicked val now sp)
  with assms show ?thesis by (simp add: runScript_running)
next
  case StopClicked
  with assms show ?thesis
    by (auto simp: stopScript_def kill_current_def split: option.splits)
next
  case ClearClicked
  with assms show ?thesis by (simp add: clearOutput_def)
next
  case (StdoutData data)
  with assms show ?thesis
    by (auto simp: on_data_def split: option.splits)
next
  case (StderrData data)
  with assms show ?thesis
    by (auto simp: on_data_def split: option.splits)
next
  case TimerFired
  with assms show ?thesis
    by (auto simp: on_timer_def kill_current_def split: option.splits timer.splits)
next
  case (Close code signal now)
  with assms show ?thesis by simp
next
  case (ProcError err now)
  with assms show ?thesis by simp
qed

lemma timedOut_run_events:
  assumes "flying s t d p w" and "timedOut w" and "\<forall>ev\<in>set evs. \<not> settles ev"
  shows "timedOut (run_events w evs)"
  using assms
proof (induction evs arbitrary: w)
  case Nil
  then show ?case by (simp add: run_events_def)
next
  case (Cons ev evs)
  from Cons.prems have f: "flying s t d p (step w ev)"
    by (simp add: flying_step)
  from Cons.prems have "isRunning w" by (simp add: flying_def)
  with Cons.prems have k: "timedOut (step w ev)"
    by (simp add: timedOut_step)
  from Cons.IH [OF f k] Cons.prems(3) show ?case
    by (simp add: run_events_def)
qed

lemma close_timed_out:
  assumes "flying s t d p w" and "timedOut w"
  shows "commandHistory (on_close code signal now w) =
           commandHistory w @
             [\<lparr>command = s,
               output_html = divs w d @
                 [\<lparr>className = js ''output-error'',
                   textContent = cross_mark @ js '' Timed out after 30s''\<rparr>],
               isError = True,
               duration = [ToFixed2 (now - t)]\<rparr>]
     \<and> executionTime (on_close code signal now w) =
           [Lit (js ''Execution time: ''), ToFixed2 (now - t), Lit (js ''s (timeout)'')]
     \<and> \<not> isRunning (on_close code signal now w)
     \<and> pending (on_close code signal now w) = None"
proof -
  have "show_int timeout_seconds = js ''30''"
    by (simp add: timeout_seconds_def timeoutMs_def show_int_def js_def)
  with assms show ?thesis
    by (auto simp: flying_def settle_defs Let_def js_def split: option.splits)
qed

text \<open>
  C2. A submission that passes the guards spawns the child and arms the timer with 30000
  milliseconds in the same call. When the timer fires before the child has closed or
  failed, the run is marked timed out and the child is sent SIGTERM; and when the child
  then closes, whatever happened in between (a stop request, output past the cap) and
  whatever its exit code, the run resolves as timed out: the history entry is an error
  whose last line is the time-out message, and the execution time carries the suffix
  \<open>(timeout)\<close>.
\<close>

theorem timeout_resolves_as_timed_out:
  assumes "trim val \<noteq> []" and "\<not> isRunning w0" and "\<not> sudo_test (trim val)"
    and "w1 = runScript val t0 Spawned w0"
    and "\<forall>ev\<in>set evs1. \<not> settles ev \<and> ev \<noteq> TimerFired"
    and "w2 = run_events w1 evs1"
    and "w3 = step w2 TimerFired"
    and "\<forall>ev\<in>set evs2. \<not> settles ev"
    and "w4 = run_events w3 evs2"
    and "w5 = step w4 (Close code signal t1)"
  shows "effects w1 =
           effects w0 @ [Spawn (js ''/bin/zsh'') [js ''-c'', trim val], SetTimeout 30000]
     \<and> currentProcess w2 = Some (length (effects w0))
     \<and> timedOut w3
     \<and> effects w3 = effects w2 @ [Kill (length (effects w0)) (js ''SIGTERM'')]
     \<and> commandHistory w5 =
           commandHistory w4 @
             [\<lparr>command = trim val,
               output_html = divs w4 (next_div w0) @
                 [\<lparr>className = js ''output-error'',
                   textContent = cross_mark @ js '' Timed out after 30s''\<rparr>],
               isError = True,
               duration = [ToFixed2 (t1 - t0)]\<rparr>]
     \<and> executionTime w5 =
           [Lit (js ''Execution time: ''), ToFixed2 (t1 - t0), Lit (js ''s (timeout)'')]
     \<and> \<not> isRunning w5
     \<and> pending w5 = None"
proof -
  let ?s = "trim val" and ?d = "next_div w0" and ?p = "length (effects w0)"
  have e1: "effects w1 =
           effects w0 @ [Spawn (js ''/bin/zsh'') [js ''-c'', trim val], SetTimeout 30000]"
    and k1: "killTimer w1 = Some Pending"
    unfolding assms(4) runScript_spawned [OF assms(1-3)]
    by (simp_all add: timeoutMs_def)
  have f1: "flying ?s t0 ?d ?p w1"
    unfolding assms(4) by (rule runScript_flying [OF assms(1-3)])
  from assms(5) have ns1: "\<forall>ev\<in>set evs1. \<not> settles ev"
    by simp
  have f2: "flying ?s t0 ?d ?p w2"
    unfolding assms(6) by (rule flying_run_events [OF f1 ns1])
  have k2: "killTimer w2 = Some Pending"
    unfolding assms(6) by (rule timer_pending_run_events [OF f1 k1 assms(5)])
  from on_timer_pending [OF f2 k2]
  have t3: "timedOut w3" and e3: "effects w3 = effects w2 @ [Kill ?p (js ''SIGTERM'')]"
    by (simp_all add: assms(7))
  have f3: "flying ?s t0 ?d ?p w3"
    unfolding assms(7) using flying_step [OF f2, of TimerFired] by simp
  have f4: "flying ?s t0 ?d ?p w4"
    unfolding assms(9) by (rule flying_run_events [OF f3 assms(8)])
  have t4: "timedOut w4"
    unfolding assms(9) by (rule timedOut_run_events [OF f3 t3 assms(8)])
  from close_timed_out [OF f4 t4, of code signal t1]
  have c5: "commandHistory w5 =
           commandHistory w4 @
             [\<lparr>command = trim val,
               output_html = divs w4 (next_div w0) @
                 [\<lparr>className = js ''output-error'',
                   textContent = cross_mark @ js '' Timed out after 30s''\<rparr>],
               isError = True,
               duration = [ToFixed2 (t1 - t0)]\<rparr>]
     \<and> executionTime w5 =
           [Lit (js ''Execution time: ''), ToFixed2 (t1 - t0), Lit (js ''s (timeout)'')]
     \<and> \<not> isRunning w5
     \<and> pending w5 = None"
    by (simp add: assms(10))
  from f2 have "currentProcess w2 = Some ?p"
    by (simp add: flying_def)
  with e1 t3 e3 c5 show ?thesis
    by simp
qed





lemma space_range: "is_space c \<Longrightarrow> c \<le> 32 \<or> 160 \<le> c"
  unfolding is_space_def by linarith

lemma word_range: "is_word_char c \<Longrightarrow> 48 \<le> c \<and> c \<le> 122"
  unfolding is_word_char_def by linarith

lemma space_not_word: "is_space c \<Longrightarrow> \<not> is_word_char c"
  using space_range [of c] word_range [of c] by linarith

lemma space_not_letter:
  assumes "is_space c"
  shows "c \<noteq> 115" and "c \<noteq> 83" and "c \<noteq> 111" and "c \<noteq> 79"
  using space_range [OF assms] by linarith+

lemma sudo_here_space_head: "is_space c \<Longrightarrow> \<not> sudo_here prev (c # cs)"
  by (cases "(prev, c # cs)" rule: sudo_here.cases) (simp_all add: space_not_letter)

lemma sudo_from_drop_spaces: "sudo_from False (dropWhile is_space s) = sudo_from False s"
  by (induction s) (simp_all add: sudo_here_space_head space_not_word)

lemma sudo_here_snoc_space:
  assumes "is_space c"
  shows "sudo_here prev (s @ [c]) = sudo_here prev s"
proof -
  consider "s = []" | c1 where "s = [c1]" | c1 c2 where "s = [c1, c2]"
    | c1 c2 c3 where "s = [c1, c2, c3]"
    | c1 c2 c3 c4 rest where "s = c1 # c2 # c3 # c4 # rest"
    by (cases s; cases "tl s"; cases "tl (tl s)"; cases "tl (tl (tl s))") auto
  then show ?thesis
  proof cases
    case 4
    with assms show ?thesis by (simp add: space_not_letter)
  next
    case 5
    with assms show ?thesis
      by (cases rest) (simp_all add: word_at_head_def space_not_word)
  qed simp_all
qed

lemma sudo_from_snoc_space:
  "is_space c \<Longrightarrow> sudo_from prev (s @ [c]) = sudo_from prev s"
proof (induction s arbitrary: prev)
  case Nil
  then show ?case by simp
next
  case (Cons x xs)
  from sudo_here_snoc_space [OF Cons.prems, of prev "x # xs"] Cons.IH [OF Cons.prems]
  show ?case by simp
qed

lemma sudo_from_append_spaces:
  "\<forall>c\<in>set ws. is_space c \<Longrightarrow> sudo_from prev (s @ ws) = sudo_from prev s"
proof (induction ws rule: rev_induct)
  case Nil
  then show ?case by simp
next
  case (snoc c ws)
  then have "sudo_from prev ((s @ ws) @ [c]) = sudo_from prev (s @ ws)"
    by (intro sudo_from_snoc_space) simp
  with snoc show ?case by simp
qed

lemma sudo_test_trim: "sudo_test (trim s) = sudo_test s"
proof -
  let ?t = "dropWhile is_space s"
  have "?t = rev (dropWhile is_space (rev ?t)) @ rev (takeWhile is_space (rev ?t))"
    by (metis rev_append rev_rev_ident takeWhile_dropWhile_id)
  moreover have "\<forall>c\<in>set (rev (takeWhile is_space (rev ?t))). is_space c"
    by (auto dest: set_takeWhileD)
  ultimately have "sudo_from False ?t = sudo_from False (rev (dropWhile is_space (rev ?t)))"
    by (metis sudo_from_append_spaces)
  then show ?thesis
    by (simp add: sudo_test_def trim_def sudo_from_drop_spaces)
qed

section \<open>The blocked command\<close>

lemma js_sudo: "js ''sudo'' = [115, 117, 100, 111]"
  by (simp add: js_def)

lemma lower_s: "ascii_lower c = 115 \<Longrightarrow> c = 115 \<or> c = 83"
  and lower_u: "ascii_lower c = 117 \<Longrightarrow> c = 117 \<or> c = 85"
  and lower_d: "ascii_lower c = 100 \<Longrightarrow> c = 100 \<or> c = 68"
  and lower_o: "ascii_lower c = 111 \<Longrightarrow> c = 111 \<or> c = 79"
  by (auto simp: ascii_lower_def split: if_splits)

lemma sudo_here_token:
  assumes "4 \<le> length s" and "map ascii_lower (take 4 s) = js ''sudo''"
    and "\<not> prev" and "4 = length s \<or> \<not> is_word_char (s ! 4)"
  shows "sudo_here prev s"
proof -
  from assms(1) obtain c1 c2 c3 c4 rest where s: "s = c1 # c2 # c3 # c4 # rest"
    by (cases s; cases "tl s"; cases "tl (tl s)"; cases "tl (tl (tl s))") auto
  from assms(2) have l: "ascii_lower c1 = 115" "ascii_lower c2 = 117"
      "ascii_lower c3 = 100" "ascii_lower c4 = 111"
    by (simp_all add: s js_sudo)
  from assms(4) have "\<not> word_at_head rest"
    by (cases rest) (simp_all add: s word_at_head_def)
  with lower_s [OF l(1)] lower_u [OF l(2)] lower_d [OF l(3)] lower_o [OF l(4)] assms(3)
  show ?thesis
    by (auto simp: s is_word_char_def)
qed

lemma sudo_from_token:
  assumes "i + 4 \<le> length s"
    and "map ascii_lower (take 4 (drop i s)) = js ''sudo''"
    and "if i = 0 then \<not> prev else \<not> is_word_char (s ! (i - 1))"
    and "i + 4 = length s \<or> \<not> is_word_char (s ! (i + 4))"
  shows "sudo_from prev s"
  using assms
proof (induction s arbitrary: i prev)
  case Nil
  then show ?case by simp
next
  case (Cons c cs)
  show ?case
  proof (cases i)
    case 0
    with Cons.prems have "sudo_here prev (c # cs)"
      by (intro sudo_here_token) auto
    then show ?thesis by simp
  next
    case (Suc j)
    have "sudo_from (is_word_char c) cs"
    proof (rule Cons.IH [of j])
      show "j + 4 \<le> length cs" using Cons.prems(1) Suc by simp
      show "map ascii_lower (take 4 (drop j cs)) = js ''sudo''"
        using Cons.prems(2) Suc by simp
      show "if j = 0 then \<not> is_word_char c else \<not> is_word_char (cs ! (j - 1))"
        using Cons.prems(3) Suc by (cases j) simp_all
      show "j + 4 = length cs \<or> \<not> is_word_char (cs ! (j + 4))"
        using Cons.prems(4) Suc by (simp add: add.commute)
    qed
    then show ?thesis by simp
  qed
qed

lemma standalone_sudo_test: "standalone_sudo s \<Longrightarrow> sudo_test s"
  unfolding standalone_sudo_def standalone_sudo_at_def sudo_test_def
  by (auto intro!: sudo_from_token)

lemma sudo_test_nonempty: "sudo_test s \<Longrightarrow> s \<noteq> []"
  by (auto simp: sudo_test_def)

lemma letter_s: "c = 115 \<or> c = 83 \<Longrightarrow> ascii_lower c = 115 \<and> is_word_char c"
  and letter_u: "c = 117 \<or> c = 85 \<Longrightarrow> ascii_lower c = 117"
  and letter_d: "c = 100 \<or> c = 68 \<Longrightarrow> ascii_lower c = 100"
  and letter_o: "c = 111 \<or> c = 79 \<Longrightarrow> ascii_lower c = 111 \<and> is_word_char c"
  by (auto simp: ascii_lower_def is_word_char_def)

lemma sudo_here_is_token:
  assumes "sudo_here prev s"
  shows "4 \<le> length s \<and> map ascii_lower (take 4 s) = js ''sudo'' \<and> \<not> prev
     \<and> (4 = length s \<or> \<not> is_word_char (s ! 4))"
proof -
  from assms obtain c1 c2 c3 c4 rest where s: "s = c1 # c2 # c3 # c4 # rest"
    by (cases "(prev, s)" rule: sudo_here.cases) auto
  from assms have m1: "c1 = 115 \<or> c1 = 83" and m2: "c2 = 117 \<or> c2 = 85"
    and m3: "c3 = 100 \<or> c3 = 68" and m4: "c4 = 111 \<or> c4 = 79"
    and b1: "prev \<noteq> is_word_char c1" and b2: "is_word_char c4 \<noteq> word_at_head rest"
    unfolding s sudo_here.simps by blast+
  from letter_s [OF m1] letter_u [OF m2] letter_d [OF m3] letter_o [OF m4]
  have l: "map ascii_lower (take 4 s) = js ''sudo''"
    by (simp add: s js_sudo)
  from b1 letter_s [OF m1] have p: "\<not> prev"
    by simp
  from b2 letter_o [OF m4] have "\<not> word_at_head rest"
    by simp
  then have r: "4 = length s \<or> \<not> is_word_char (s ! 4)"
    by (cases rest) (simp_all add: s word_at_head_def)
  have "4 \<le> length s"
    by (simp add: s)
  with l p r show ?thesis
    by blast
qed

lemma sudo_from_is_token:
  assumes "sudo_from prev s"
  shows "\<exists>i. i + 4 \<le> length s
     \<and> map ascii_lower (take 4 (drop i s)) = js ''sudo''
     \<and> (if i = 0 then \<not> prev else \<not> is_word_char (s ! (i - 1)))
     \<and> (i + 4 = length s \<or> \<not> is_word_char (s ! (i + 4)))"
  using assms
proof (induction s arbitrary: prev)
  case Nil
  then show ?case by simp
next
  case (Cons c cs)
  show ?case
  proof (cases "sudo_here prev (c # cs)")
    case True
    from sudo_here_is_token [OF True] show ?thesis
      by (intro exI [of _ 0]) simp
  next
    case False
    with Cons.prems have "sudo_from (is_word_char c) cs"
      by simp
    from Cons.IH [OF this] obtain j where j: "j + 4 \<le> length cs"
      "map ascii_lower (take 4 (drop j cs)) = js ''sudo''"
      "if j = 0 then \<not> is_word_char c else \<not> is_word_char (cs ! (j - 1))"
      "j + 4 = length cs \<or> \<not> is_word_char (cs ! (j + 4))"
      by blast
    from j(3) have "\<not> is_word_char ((c # cs) ! j)"
      by (cases j) (simp_all split: if_splits)
    with j(1,2,4) show ?thesis
      by (intro exI [of _ "Suc j"]) (simp add: add.commute)
  qed
qed

text \<open>
  The pattern matches exactly the strings with a standalone occurrence of the token.
\<close>

lemma sudo_test_standalone: "sudo_test s \<longleftrightarrow> standalone_sudo s"
proof
  assume "sudo_test s"
  from sudo_from_is_token [OF this [unfolded sudo_test_def]]
  obtain i where i: "i + 4 \<le> length s"
      "map ascii_lower (take 4 (drop i s)) = js ''sudo''"
      "if i = 0 then \<not> False else \<not> is_word_char (s ! (i - 1))"
      "i + 4 = length s \<or> \<not> is_word_char (s ! (i + 4))"
    by blast
  from i(3) have "i = 0 \<or> \<not> is_word_char (s ! (i - 1))"
    by (cases "i = 0") simp_all
  with i(1,2,4) have "standalone_sudo_at s i"
    by (simp add: standalone_sudo_at_def)
  moreover from i(1) have "i \<in> set (upt 0 (length s))"
    by simp
  ultimately show "standalone_sudo s"
    unfolding standalone_sudo_def by blast
next
  assume "standalone_sudo s"
  then show "sudo_test s"
    by (rule standalone_sudo_test)
qed

text \<open>
  C1. A command line with a standalone occurrence of \<open>sudo\<close>, in any case, submitted
  while no run is in flight (the guard that comes first), is blocked: the command is
  echoed, the block reason is written as an error line, the history gets an entry that is
  an error with the duration \<open>0.00\<close>, and nothing else changes; in particular no child
  process is spawned and no timer is armed.
\<close>

theorem sudo_is_blocked:
  assumes "standalone_sudo val" and "\<not> isRunning w"
  shows "runScript val now sp w =
     w\<lparr>scriptOutput := (if Placeholder \<in> set (scriptOutput w) then [] else scriptOutput w) @
          [CommandDiv (js ''$ '' @ trim val), OutputBlock (next_div w)],
       divs := (divs w)(next_div w :=
          [\<lparr>className = js ''output-error'',
            textContent = cross_mark @ js '' sudo is blocked in this app''\<rparr>]),
       next_div := Suc (next_div w),
       commandHistory := commandHistory w @
          [\<lparr>command = trim val,
            output_html =
              [\<lparr>className = js ''output-error'',
                textContent = cross_mark @ js '' sudo is blocked in this app''\<rparr>],
            isError = True,
            duration = [Lit (js ''0.00'')]\<rparr>],
       executionTime := []\<rparr>
     \<and> effects (runScript val now sp w) = effects w
     \<and> pending (runScript val now sp w) = pending w
     \<and> \<not> isRunning (runScript val now sp w)"
proof -
  from assms(1) have t: "sudo_test (trim val)"
    by (simp add: sudo_test_trim standalone_sudo_test)
  then have n: "trim val \<noteq> []"
    by (rule sudo_test_nonempty)
  from t n assms(2) have eq: "runScript val now sp w =
     w\<lparr>scriptOutput := (if Placeholder \<in> set (scriptOutput w) then [] else scriptOutput w) @
          [CommandDiv (js ''$ '' @ trim val), OutputBlock (next_div w)],
       divs := (divs w)(next_div w :=
          [\<lparr>className = js ''output-error'',
            textContent = cross_mark @ js '' sudo is blocked in this app''\<rparr>]),
       next_div := Suc (next_div w),
       commandHistory := commandHistory w @
          [\<lparr>command = trim val,
            output_html =
              [\<lparr>className = js ''output-error'',
                textContent = cross_mark @ js '' sudo is blocked in this app''\<rparr>],
            isError = True,
            duration = [Lit (js ''0.00'')]\<rparr>],
       executionTime := []\<rparr>"
    by (simp add: runScript_def Let_def attach_block_def echo_command_def
        remove_placeholder_def appendMessage_def)
  show ?thesis
    unfolding eq using assms(2) by simp
qed

section \<open>Concrete runs\<close>

text \<open>Each theorem above applied to a run of the executor from its initial state.\<close>

lemma js_ls: "js ''ls'' = [108, 115]"
  by (simp add: js_def)

lemma trim_ls: "trim [108, 115] = [108, 115]"
  by (simp add: trim_def is_space_def)

lemma no_sudo_ls: "\<not> sudo_test [108, 115]"
  by (simp add: sudo_test_def)

lemma idle_initial: "\<not> isRunning (initial nodes txt)"
  by (simp add: initial_def)

lemma fresh_block: "(\<lambda>_. [])(d := []) = (\<lambda>_. [])"
  by (rule ext) simp

lemma ls_started:
  "run_events (initial [Placeholder] []) [RunClicked (js ''ls'') 1000 Spawned] =
     \<lparr>isRunning = True, currentProcess = Some 0, commandHistory = [],
      killTimer = Some Pending, wasStopped = False, timedOut = False,
      scriptOutput = [CommandDiv [36, 32, 108, 115], OutputBlock 0], executionTime = [],
      divs = (\<lambda>_. []), next_div = 1,
      effects = [Spawn (js ''/bin/zsh'') [js ''-c'', [108, 115]], SetTimeout 30000],
      pending = Some \<lparr>script = [108, 115], startTime = 1000, outputChars = 0, outputDiv = 0\<rparr>\<rparr>"
proof -
  have "runScript (js ''ls'') 1000 Spawned (initial [Placeholder] []) =
     \<lparr>isRunning = True, currentProcess = Some 0, commandHistory = [],
      killTimer = Some Pending, wasStopped = False, timedOut = False,
      scriptOutput = [CommandDiv [36, 32, 108, 115], OutputBlock 0], executionTime = [],
      divs = (\<lambda>_. []), next_div = 1,
      effects = [Spawn (js ''/bin/zsh'') [js ''-c'', [108, 115]], SetTimeout 30000],
      pending = Some \<lparr>script = [108, 115], startTime = 1000, outputChars = 0, outputDiv = 0\<rparr>\<rparr>"
    unfolding js_ls
    by (subst runScript_spawned)
      (simp_all add: trim_ls no_sudo_ls idle_initial, simp add: initial_def timeoutMs_def js_def fresh_block)
  then show ?thesis
    by (simp add: run_events_def)
qed

theorem counted_chars_exclude_line_breaks_witness:
  "pending (run_events (initial [Placeholder] []) [RunClicked (js ''ls'') 1000 Spawned]) =
      Some \<lparr>script = [108, 115], startTime = 1000, outputChars = 0, outputDiv = 0\<rparr>
   \<and> \<not> marked (run_events (initial [Placeholder] []) [RunClicked (js ''ls'') 1000 Spawned])
   \<and> length [97, 10, 10, 98, 13, 10 :: nat] = 6
   \<and> line_break_units [97, 10, 10, 98, 13, 10] = 4
   \<and> (\<exists>r'. pending (step (run_events (initial [Placeholder] []) [RunClicked (js ''ls'') 1000 Spawned])
                  (StdoutData [97, 10, 10, 98, 13, 10])) = Some r'
          \<and> outputChars r' = 2)"
proof -
  let ?w = "run_events (initial [Placeholder] []) [RunClicked (js ''ls'') 1000 Spawned]"
  let ?r = "\<lparr>script = [108, 115], startTime = 1000, outputChars = 0, outputDiv = 0\<rparr>"
  have p: "pending ?w = Some ?r"
    by (simp add: ls_started)
  have m: "\<not> marked ?w"
    by (simp add: ls_started marked_def)
  have u: "line_break_units [97, 10, 10, 98, 13, 10] = 4"
    by simp
  from counted_chars_exclude_line_breaks [OF p m, of "StdoutData [97, 10, 10, 98, 13, 10]" "[97, 10, 10, 98, 13, 10]"]
  obtain r' where "pending (step ?w (StdoutData [97, 10, 10, 98, 13, 10])) = Some r'"
    and "outputChars r' + line_break_units [97, 10, 10, 98, 13, 10] = outputChars ?r + length [97, 10, 10, 98, 13, 10 :: nat]"
    by blast
  with u have "\<exists>r'. pending (step ?w (StdoutData [97, 10, 10, 98, 13, 10])) = Some r' \<and> outputChars r' = 2"
    by auto
  with p m u show ?thesis
    by simp
qed


lemma ls_pending:
  "pending (run_events (initial [Placeholder] []) [RunClicked (js ''ls'') 1000 Spawned]) = Some \<lparr>script = [108, 115], startTime = 1000, outputChars = 0, outputDiv = 0\<rparr>"
  by (simp add: ls_started)

lemma ls_unmarked: "\<not> marked (run_events (initial [Placeholder] []) [RunClicked (js ''ls'') 1000 Spawned])"
  by (simp add: ls_started marked_def)


lemma plain_chunk: "c \<noteq> 10 \<Longrightarrow> c \<noteq> 13 \<Longrightarrow> line_break_units (replicate n c) = 0"
  by (induction n) auto

theorem sudo_is_blocked_witness:
  "standalone_sudo (js '' Sudo ls'')
   \<and> \<not> isRunning (initial [Placeholder] [])
   \<and> trim (js '' Sudo ls'') = js ''Sudo ls''
   \<and> commandHistory (runScript (js '' Sudo ls'') 5 Spawned (initial [Placeholder] [])) =
        [\<lparr>command = js ''Sudo ls'',
          output_html =
            [\<lparr>className = js ''output-error'',
              textContent = cross_mark @ js '' sudo is blocked in this app''\<rparr>],
          isError = True,
          duration = [Lit (js ''0.00'')]\<rparr>]
   \<and> effects (runScript (js '' Sudo ls'') 5 Spawned (initial [Placeholder] [])) = []
   \<and> pending (runScript (js '' Sudo ls'') 5 Spawned (initial [Placeholder] [])) = None"
proof -
  have s: "standalone_sudo (js '' Sudo ls'')"
    by (simp add: standalone_sudo_def standalone_sudo_at_def js_def is_word_char_def
        ascii_lower_def upt_rec)
  have i: "\<not> isRunning (initial [Placeholder] [])"
    by (rule idle_initial)
  have t: "trim (js '' Sudo ls'') = js ''Sudo ls''"
    by (simp add: trim_def js_def is_space_def)
  from sudo_is_blocked [OF s i, of 5 Spawned] s i t show ?thesis
    by (simp add: initial_def)
qed

theorem timeout_resolves_as_timed_out_witness:
  "trim (js ''ls'') \<noteq> [] \<and> \<not> isRunning (initial [Placeholder] []) \<and> \<not> sudo_test (trim (js ''ls''))
   \<and> \<not> settles (StdoutData [97]) \<and> \<not> settles StopClicked
   \<and> timedOut (step (run_events (runScript (js ''ls'') 1000 Spawned (initial [Placeholder] [])) [StdoutData [97]]) TimerFired)
   \<and> effects (step (run_events (runScript (js ''ls'') 1000 Spawned (initial [Placeholder] [])) [StdoutData [97]]) TimerFired) =
        effects (run_events (runScript (js ''ls'') 1000 Spawned (initial [Placeholder] [])) [StdoutData [97]]) @
          [Kill 0 (js ''SIGTERM'')]
   \<and> executionTime
        (step (run_events
                 (step (run_events (runScript (js ''ls'') 1000 Spawned (initial [Placeholder] [])) [StdoutData [97]])
                    TimerFired)
                 [StopClicked])
           (Close (Some 0) None 31000)) =
        [Lit (js ''Execution time: ''), ToFixed2 30000, Lit (js ''s (timeout)'')]
   \<and> \<not> isRunning
        (step (run_events
                 (step (run_events (runScript (js ''ls'') 1000 Spawned (initial [Placeholder] [])) [StdoutData [97]])
                    TimerFired)
                 [StopClicked])
           (Close (Some 0) None 31000))"
proof -
  have a: "trim (js ''ls'') \<noteq> []" and c: "\<not> sudo_test (trim (js ''ls''))"
    by (simp_all add: js_ls trim_ls no_sudo_ls)
  have b: "\<not> isRunning (initial [Placeholder] [])"
    by (rule idle_initial)
  have e1: "\<forall>ev\<in>set [StdoutData [97]]. \<not> settles ev \<and> ev \<noteq> TimerFired"
    and e2: "\<forall>ev\<in>set [StopClicked]. \<not> settles ev"
    by simp_all
  from timeout_resolves_as_timed_out [OF a b c refl e1 refl refl e2 refl refl,
      of 1000 "Some 0" None 31000] a b c
  show ?thesis
    by (simp add: initial_def)
qed

theorem output_overshoots_cap_by_one_chunk_at_most_witness:
  "pending (run_events (initial [Placeholder] []) [RunClicked (js ''ls'') 1000 Spawned]) = Some \<lparr>script = [108, 115], startTime = 1000, outputChars = 0, outputDiv = 0\<rparr>
   \<and> \<not> marked (run_events (initial [Placeholder] []) [RunClicked (js ''ls'') 1000 Spawned])
   \<and> counted (replicate 50001 97) = 50001
   \<and> (\<exists>p. currentProcess (run_events (initial [Placeholder] []) [RunClicked (js ''ls'') 1000 Spawned]) = Some p
        \<and> step (run_events (initial [Placeholder] []) [RunClicked (js ''ls'') 1000 Spawned]) (StdoutData (replicate 50001 97)) =
            (run_events (initial [Placeholder] []) [RunClicked (js ''ls'') 1000 Spawned])\<lparr>divs := (divs (run_events (initial [Placeholder] []) [RunClicked (js ''ls'') 1000 Spawned]))(0 := chunk_lines (js ''output-stdout'') (replicate 50001 97) @
                     [\<lparr>className = js ''output-error'',
                       textContent = stop_mark @ js '' Output truncated (too large)''\<rparr>]),
              pending := Some (\<lparr>script = [108, 115], startTime = 1000, outputChars = 0, outputDiv = 0\<rparr>\<lparr>outputChars := 50001\<rparr>),
              wasStopped := True,
              effects := effects (run_events (initial [Placeholder] []) [RunClicked (js ''ls'') 1000 Spawned]) @ [Kill p (js ''SIGTERM'')]\<rparr>)"
proof -
  have n: "counted (replicate 50001 97) = 50001"
    by (simp add: counted_def plain_chunk)
  from output_overshoots_cap_by_one_chunk_at_most [OF refl ls_pending,
      of "StdoutData (replicate 50001 97)" "replicate 50001 97" "js ''output-stdout''"]
    ls_unmarked
  have "let n = outputChars \<lparr>script = [108, 115], startTime = 1000, outputChars = 0, outputDiv = 0\<rparr> + counted (replicate 50001 97);
            w1 = (run_events (initial [Placeholder] []) [RunClicked (js ''ls'') 1000 Spawned])\<lparr>divs := (divs (run_events (initial [Placeholder] []) [RunClicked (js ''ls'') 1000 Spawned]))(outputDiv \<lparr>script = [108, 115], startTime = 1000, outputChars = 0, outputDiv = 0\<rparr> := divs (run_events (initial [Placeholder] []) [RunClicked (js ''ls'') 1000 Spawned]) (outputDiv \<lparr>script = [108, 115], startTime = 1000, outputChars = 0, outputDiv = 0\<rparr>) @
                         chunk_lines (js ''output-stdout'') (replicate 50001 97)),
                   pending := Some (\<lparr>script = [108, 115], startTime = 1000, outputChars = 0, outputDiv = 0\<rparr>\<lparr>outputChars := n\<rparr>)\<rparr>
        in if n \<le> maxOutputChars then step (run_events (initial [Placeholder] []) [RunClicked (js ''ls'') 1000 Spawned]) (StdoutData (replicate 50001 97)) = w1
           else \<exists>p. currentProcess (run_events (initial [Placeholder] []) [RunClicked (js ''ls'') 1000 Spawned]) = Some p
                  \<and> step (run_events (initial [Placeholder] []) [RunClicked (js ''ls'') 1000 Spawned]) (StdoutData (replicate 50001 97)) =
                      w1\<lparr>divs := (divs w1)(outputDiv \<lparr>script = [108, 115], startTime = 1000, outputChars = 0, outputDiv = 0\<rparr> := divs w1 (outputDiv \<lparr>script = [108, 115], startTime = 1000, outputChars = 0, outputDiv = 0\<rparr>) @
                              [\<lparr>className = js ''output-error'',
                                textContent = stop_mark @ js '' Output truncated (too large)''\<rparr>]),
                         wasStopped := True,
                         effects := effects (run_events (initial [Placeholder] []) [RunClicked (js ''ls'') 1000 Spawned]) @ [Kill p (js ''SIGTERM'')]\<rparr>"
    by blast
  then have "\<exists>p. currentProcess (run_events (initial [Placeholder] []) [RunClicked (js ''ls'') 1000 Spawned]) = Some p
        \<and> step (run_events (initial [Placeholder] []) [RunClicked (js ''ls'') 1000 Spawned]) (StdoutData (replicate 50001 97)) =
            (run_events (initial [Placeholder] []) [RunClicked (js ''ls'') 1000 Spawned])\<lparr>divs := (divs (run_events (initial [Placeholder] []) [RunClicked (js ''ls'') 1000 Spawned]))(0 := chunk_lines (js ''output-stdout'') (replicate 50001 97) @
                     [\<lparr>className = js ''output-error'',
                       textContent = stop_mark @ js '' Output truncated (too large)''\<rparr>]),
              pending := Some (\<lparr>script = [108, 115], startTime = 1000, outputChars = 0, outputDiv = 0\<rparr>\<lparr>outputChars := 50001\<rparr>),
              wasStopped := True,
              effects := effects (run_events (initial [Placeholder] []) [RunClicked (js ''ls'') 1000 Spawned]) @ [Kill p (js ''SIGTERM'')]\<rparr>"
    unfolding n Let_def
    by (simp add: maxOutputChars_def ls_started)
  with ls_pending ls_unmarked n show ?thesis
    by blast
qed


theorem one_run_at_a_time_witness:
  "isRunning (run_events (initial [Placeholder] []) [RunClicked (js ''ls'') 1000 Spawned]) \<and> pending (run_events (initial [Placeholder] []) [RunClicked (js ''ls'') 1000 Spawned]) \<noteq> None
   \<and> step (run_events (initial [Placeholder] []) [RunClicked (js ''ls'') 1000 Spawned]) (RunClicked (js ''pwd'') 2000 Spawned) = (run_events (initial [Placeholder] []) [RunClicked (js ''ls'') 1000 Spawned])"
proof -
  have "pending (run_events (initial [Placeholder] []) [RunClicked (js ''ls'') 1000 Spawned]) \<noteq> None"
    by (simp add: ls_pending)
  with one_run_at_a_time [OF refl, of "[Placeholder]" "[]" "[RunClicked (js ''ls'') 1000 Spawned]" "js ''pwd''" 2000 Spawned]
  show ?thesis
    by blast
qed

theorem null_exit_code_is_success_witness:
  "pending (run_events (initial [Placeholder] []) [RunClicked (js ''ls'') 1000 Spawned]) = Some \<lparr>script = [108, 115], startTime = 1000, outputChars = 0, outputDiv = 0\<rparr> \<and> \<not> timedOut (run_events (initial [Placeholder] []) [RunClicked (js ''ls'') 1000 Spawned]) \<and> \<not> wasStopped (run_events (initial [Placeholder] []) [RunClicked (js ''ls'') 1000 Spawned])
   \<and> step (run_events (initial [Placeholder] []) [RunClicked (js ''ls'') 1000 Spawned]) (Close None (Some (js ''SIGKILL'')) 1250) =
       step (run_events (initial [Placeholder] []) [RunClicked (js ''ls'') 1000 Spawned]) (Close (Some 0) (Some (js ''SIGKILL'')) 1250)
   \<and> commandHistory (step (run_events (initial [Placeholder] []) [RunClicked (js ''ls'') 1000 Spawned]) (Close None (Some (js ''SIGKILL'')) 1250)) =
        [\<lparr>command = [108, 115],
          output_html =
            [\<lparr>className = js ''output-success'',
              textContent = check_mark @ js '' Completed successfully''\<rparr>],
          isError = False,
          duration = [ToFixed2 250]\<rparr>]"
proof -
  have t: "\<not> timedOut (run_events (initial [Placeholder] []) [RunClicked (js ''ls'') 1000 Spawned])" and s: "\<not> wasStopped (run_events (initial [Placeholder] []) [RunClicked (js ''ls'') 1000 Spawned])"
    by (simp_all add: ls_started)
  note th = null_exit_code_is_success [OF ls_pending t s, of "Some (js ''SIGKILL'')" 1250]
  from th have same: "step (run_events (initial [Placeholder] []) [RunClicked (js ''ls'') 1000 Spawned]) (Close None (Some (js ''SIGKILL'')) 1250) =
       step (run_events (initial [Placeholder] []) [RunClicked (js ''ls'') 1000 Spawned]) (Close (Some 0) (Some (js ''SIGKILL'')) 1250)"
    by blast
  from th have "commandHistory (step (run_events (initial [Placeholder] []) [RunClicked (js ''ls'') 1000 Spawned]) (Close None (Some (js ''SIGKILL'')) 1250)) =
      commandHistory (run_events (initial [Placeholder] []) [RunClicked (js ''ls'') 1000 Spawned]) @
        [\<lparr>command = script \<lparr>script = [108, 115], startTime = 1000, outputChars = 0, outputDiv = 0\<rparr>,
          output_html = divs (run_events (initial [Placeholder] []) [RunClicked (js ''ls'') 1000 Spawned]) (outputDiv \<lparr>script = [108, 115], startTime = 1000, outputChars = 0, outputDiv = 0\<rparr>) @
            [\<lparr>className = js ''output-success'',
              textContent = check_mark @ js '' Completed successfully''\<rparr>],
          isError = False,
          duration = [ToFixed2 (1250 - startTime \<lparr>script = [108, 115], startTime = 1000, outputChars = 0, outputDiv = 0\<rparr>)]\<rparr>]"
    by blast
  also have "\<dots> =
        [\<lparr>command = [108, 115],
          output_html =
            [\<lparr>className = js ''output-success'',
              textContent = check_mark @ js '' Completed successfully''\<rparr>],
          isError = False,
          duration = [ToFixed2 250]\<rparr>]"
    by (simp add: ls_started)
  finally show ?thesis
    using ls_pending t s same by blast
qed



end
